theory Spec2Isabelle
  imports Main "HOL-Library.AList" "HOL-Library.Char_ord" "HOL-Library.List_Lexorder"
begin

section \<open>The job queue (lib/jqueue.py)\<close>

subsection \<open>Constants and exceptions\<close>

text \<open>
  Modelled from the spec: the module \<open>ganeti.constants\<close> is not part of the sources
  at hand; the spec names four pairwise distinct opcode statuses and four job statuses.
\<close>

datatype op_status =
  OP_STATUS_QUEUED | OP_STATUS_RUNNING | OP_STATUS_SUCCESS | OP_STATUS_ERROR

datatype job_status =
  JOB_STATUS_QUEUED | JOB_STATUS_RUNNING | JOB_STATUS_SUCCESS | JOB_STATUS_ERROR

text \<open>
  An exception object raised by a processor: the class it belongs to, as far as the
  handlers of \<open>Run\<close> tell classes apart, and what \<open>str(err)\<close> does: it returns the
  text (\<open>Inr\<close>) or raises an exception itself, of the class given (\<open>Inl\<close>).
  \<open>GenericErrorClass\<close> is \<open>errors.GenericError\<close> (a subclass of
  \<open>Exception\<close>), \<open>ExceptionClass\<close> any other subclass of \<open>Exception\<close>, and
  \<open>NotExceptionClass\<close> a raised object that no \<open>except Exception\<close> clause matches.
\<close>

datatype exn_class = GenericErrorClass | ExceptionClass | NotExceptionClass

record exn =
  exn_class :: exn_class
  exn_str :: "exn_class + string"

definition is_Exception :: "exn \<Rightarrow> bool" where
  "is_Exception e = (exn_class e \<noteq> NotExceptionClass)"

text \<open>The errors the queue itself raises.\<close>

datatype error =
  Exception string
| OpExecError string
| UnboundLocalError string

subsection \<open>Opcode slots and jobs\<close>

text \<open>
  The attribute \<open>result\<close> of a slot: \<open>None\<close> at construction, the processor's result
  after success, \<open>str(err)\<close> after a failure.
\<close>

datatype 'r op_result = ResultNone | ResultValue 'r | ResultText string

record ('op, 'r) QueuedOpCode =
  input :: 'op
  status :: op_status
  result :: "'r op_result"

definition QueuedOpCode_init :: "'op \<Rightarrow> ('op, 'r) QueuedOpCode" where
  "QueuedOpCode_init op = \<lparr>input = op, status = OP_STATUS_QUEUED, result = ResultNone\<rparr>"

record ('op, 'r) QueuedJob =
  job_id :: string
  ops :: "('op, 'r) QueuedOpCode list"

definition QueuedJob_init :: "'op list \<Rightarrow> string \<Rightarrow> error + ('op, 'r) QueuedJob" where
  "QueuedJob_init opcodes jid =
     (if opcodes = [] then Inl (Exception ''No opcodes'')
      else Inr \<lparr>job_id = jid, ops = map QueuedOpCode_init opcodes\<rparr>)"

text \<open>
  The loop of \<open>_GetStatusUnlocked\<close>: the state of the loop is the pair
  \<open>(status, all_success)\<close>; a slot in SUCCESS is skipped (\<open>continue\<close>), any other
  slot clears \<open>all_success\<close>, and a slot in ERROR or RUNNING overwrites \<open>status\<close>.
\<close>

fun status_loop ::
  "('op, 'r) QueuedOpCode list \<Rightarrow> job_status \<times> bool \<Rightarrow> job_status \<times> bool" where
  "status_loop [] acc = acc"
| "status_loop (op # rest) (st, all_success) =
     (if status op = OP_STATUS_SUCCESS then status_loop rest (st, all_success)
      else if status op = OP_STATUS_QUEUED then status_loop rest (st, False)
      else if status op = OP_STATUS_ERROR then status_loop rest (JOB_STATUS_ERROR, False)
      else if status op = OP_STATUS_RUNNING then status_loop rest (JOB_STATUS_RUNNING, False)
      else status_loop rest (st, False))"

definition GetStatusUnlocked :: "('op, 'r) QueuedJob \<Rightarrow> job_status" where
  "GetStatusUnlocked job =
     (case status_loop (ops job) (JOB_STATUS_QUEUED, True) of
        (st, all_success) \<Rightarrow> if all_success then JOB_STATUS_SUCCESS else st)"

text \<open>\<open>GetStatus\<close> takes the job's lock around \<open>_GetStatusUnlocked\<close>.\<close>

definition GetStatus :: "('op, 'r) QueuedJob \<Rightarrow> job_status" where
  "GetStatus job = GetStatusUnlocked job"

subsection \<open>Running a job\<close>

text \<open>
  The processor is an external object with a state of its own: \<open>ExecOpCode\<close> takes
  the processor's state and an opcode, and returns the result or the raised exception
  together with the new state. Locks and logging calls have no effect on the values
  computed and are left out.

  \<open>run_loop\<close> is the \<open>for\<close> loop of \<open>Run\<close> with its inner \<open>try\<close>: the slot goes to
  RUNNING, the processor is called; on return the slot goes to SUCCESS with the result
  and the loop goes on. An exception matched by \<open>except Exception, err\<close> is bound to
  \<open>err\<close> and puts the slot to ERROR; then \<open>str(err)\<close> is evaluated: if it returns, the
  text becomes the slot's result and the exception is raised again; if it raises, the
  result stays as it was and that exception leaves the handler instead. An exception the
  clause does not match leaves the loop with the slot still RUNNING and \<open>err\<close> unbound.
  The first component of the value is \<open>None\<close> when the loop has run to its end, and
  otherwise the class of the exception that leaves the loop together with whether the
  local \<open>err\<close> is bound.
\<close>

fun run_loop ::
  "('p \<Rightarrow> 'op \<Rightarrow> (exn + 'r) \<times> 'p) \<Rightarrow> 'p \<Rightarrow> ('op, 'r) QueuedOpCode list \<Rightarrow>
     (exn_class \<times> bool) option \<times> ('op, 'r) QueuedOpCode list \<times> 'p" where
  "run_loop ExecOpCode p [] = (None, [], p)"
| "run_loop ExecOpCode p (op # rest) =
     (let op1 = op\<lparr>status := OP_STATUS_RUNNING\<rparr> in
      case ExecOpCode p (input op1) of
        (Inr res, p') \<Rightarrow>
          (let op2 = op1\<lparr>status := OP_STATUS_SUCCESS, result := ResultValue res\<rparr> in
           case run_loop ExecOpCode p' rest of
             (raised, rest', p'') \<Rightarrow> (raised, op2 # rest', p''))
      | (Inl err, p') \<Rightarrow>
          if is_Exception err
          then (let op2 = op1\<lparr>status := OP_STATUS_ERROR\<rparr> in
                case exn_str err of
                  Inr txt \<Rightarrow> (Some (exn_class err, True), op2\<lparr>result := ResultText txt\<rparr> # rest, p')
                | Inl c \<Rightarrow> (Some (c, True), op2 # rest, p'))
          else (Some (exn_class err, False), op1 # rest, p'))"

text \<open>
  The outer \<open>try\<close> of \<open>Run\<close>: \<open>errors.GenericError\<close> and every other \<open>Exception\<close>
  are logged and swallowed. The bare \<open>except:\<close> clause reads the local \<open>err\<close> for its
  log call: if the inner handler has bound it, the call logs and \<open>Run\<close> returns; if no
  clause has bound it, reading it raises \<open>UnboundLocalError\<close>.
\<close>

definition Run ::
  "('p \<Rightarrow> 'op \<Rightarrow> (exn + 'r) \<times> 'p) \<Rightarrow> 'p \<Rightarrow> ('op, 'r) QueuedJob \<Rightarrow>
     (error + unit) \<times> ('op, 'r) QueuedJob \<times> 'p" where
  "Run ExecOpCode p job =
     (case run_loop ExecOpCode p (ops job) of
        (raised, ops', p') \<Rightarrow>
          ((case raised of
              None \<Rightarrow> Inr ()
            | Some (c, err_bound) \<Rightarrow>
                if c = GenericErrorClass then Inr ()
                else if c \<noteq> NotExceptionClass then Inr ()
                else if err_bound then Inr ()
                else Inl (UnboundLocalError ''err'')),
           job\<lparr>ops := ops'\<rparr>, p'))"

subsection \<open>The queue\<close>

text \<open>\<open>str\<close> of a Python integer: its decimal digits, with a minus sign if negative.\<close>

definition digit_char :: "nat \<Rightarrow> char" where
  "digit_char d = ''0123456789'' ! d"

fun str_nat :: "nat \<Rightarrow> string" where
  "str_nat n = (if n < 10 then [digit_char n] else str_nat (n div 10) @ [digit_char (n mod 10)])"

declare str_nat.simps [simp del]

definition str_int :: "int \<Rightarrow> string" where
  "str_int i = (if i < 0 then CHR ''-'' # str_nat (nat (- i)) else str_nat (nat i))"

text \<open>
  The dictionary \<open>_jobs\<close> is an association list with one entry per key; \<open>tasks\<close> are
  the jobs handed to the worker pool with \<open>AddTask\<close>, oldest first, each named by its id
  (the pool and the dictionary hold the same job object).
\<close>

record ('op, 'r) JobQueue =
  last_job_id :: int
  jobs :: "(string \<times> ('op, 'r) QueuedJob) list"
  tasks :: "string list"

definition JobQueue_init :: "('op, 'r) JobQueue" where
  "JobQueue_init = \<lparr>last_job_id = 0, jobs = [], tasks = []\<rparr>"

definition NewJobIdUnlocked :: "('op, 'r) JobQueue \<Rightarrow> string \<times> ('op, 'r) JobQueue" where
  "NewJobIdUnlocked q =
     (let q' = q\<lparr>last_job_id := last_job_id q + 1\<rparr> in (str_int (last_job_id q'), q'))"

text \<open>
  \<open>SubmitJob\<close> returns the new id or the exception of the job's constructor, and the
  queue as the call leaves it in either case.
\<close>

definition SubmitJob ::
  "('op, 'r) JobQueue \<Rightarrow> 'op list \<Rightarrow> (error + string) \<times> ('op, 'r) JobQueue" where
  "SubmitJob q opcodes =
     (case NewJobIdUnlocked q of
        (jid, q1) \<Rightarrow>
          (case QueuedJob_init opcodes jid of
             Inl e \<Rightarrow> (Inl e, q1)
           | Inr job \<Rightarrow>
               (Inr jid,
                q1\<lparr>jobs := AList.update jid job (jobs q1), tasks := tasks q1 @ [jid]\<rparr>)))"

subsection \<open>Queries\<close>

datatype 'r field_value =
  FieldId string | FieldStatus job_status | FieldResult "'r op_result list"

definition invalid_field_msg :: "string \<Rightarrow> string" where
  "invalid_field_msg fname = ''Invalid job query field '' @ [CHR 0x27] @ fname @ [CHR 0x27]"

text \<open>The loop of \<open>_GetJobInfo\<close>, with the list \<open>row\<close> it appends to.\<close>

fun GetJobInfo_loop ::
  "('op, 'r) QueuedJob \<Rightarrow> string list \<Rightarrow> 'r field_value list \<Rightarrow> error + 'r field_value list" where
  "GetJobInfo_loop job [] row = Inr row"
| "GetJobInfo_loop job (fname # rest) row =
     (if fname = ''id'' then GetJobInfo_loop job rest (row @ [FieldId (job_id job)])
      else if fname = ''status'' then GetJobInfo_loop job rest (row @ [FieldStatus (GetStatus job)])
      else if fname = ''result'' then
        GetJobInfo_loop job rest (row @ [FieldResult (map result (ops job))])
      else Inl (OpExecError (invalid_field_msg fname)))"

definition GetJobInfo ::
  "('op, 'r) QueuedJob \<Rightarrow> string list \<Rightarrow> error + 'r field_value list" where
  "GetJobInfo job fnames = GetJobInfo_loop job fnames []"

text \<open>
  The loop of \<open>QueryJobs\<close> over the sorted ids, with the list \<open>jobs\<close> it appends to
  (here \<open>acc\<close>); \<open>None\<close> is the entry of an id that is not in the dictionary.
\<close>

fun QueryJobs_loop ::
  "(string \<times> ('op, 'r) QueuedJob) list \<Rightarrow> string list \<Rightarrow> string list \<Rightarrow>
     'r field_value list option list \<Rightarrow> error + 'r field_value list option list" where
  "QueryJobs_loop js [] fnames acc = Inr acc"
| "QueryJobs_loop js (jid # rest) fnames acc =
     (case map_of js jid of
        None \<Rightarrow> QueryJobs_loop js rest fnames (acc @ [None])
      | Some job \<Rightarrow>
          (case GetJobInfo job fnames of
             Inl e \<Rightarrow> Inl e
           | Inr row \<Rightarrow> QueryJobs_loop js rest fnames (acc @ [Some row])))"

text \<open>
  \<open>job_ids\<close> is \<open>None\<close> or a list of ids; \<open>not job_ids\<close> holds for \<open>None\<close> and for the
  empty list. The ids are strings, and \<open>sort()\<close> orders strings character by character.
\<close>

definition QueryJobs ::
  "('op, 'r) JobQueue \<Rightarrow> string list option \<Rightarrow> string list \<Rightarrow>
     error + 'r field_value list option list" where
  "QueryJobs q job_ids fnames =
     (let ids = (case job_ids of
                   None \<Rightarrow> map fst (jobs q)
                 | Some l \<Rightarrow> if l = [] then map fst (jobs q) else l)
      in QueryJobs_loop (jobs q) (sort ids) fnames [])"

subsection \<open>Vocabulary of the statements\<close>

text \<open>
  \<open>exec_prefix\<close>: the processor, started in state \<open>p\<close>, returns on every opcode of the
  list in turn; the value is the list of results and the state it ends in.
\<close>

fun exec_prefix ::
  "('p \<Rightarrow> 'op \<Rightarrow> (exn + 'r) \<times> 'p) \<Rightarrow> 'p \<Rightarrow> 'op list \<Rightarrow> ('r list \<times> 'p) option" where
  "exec_prefix ExecOpCode p [] = Some ([], p)"
| "exec_prefix ExecOpCode p (x # xs) =
     (case ExecOpCode p x of
        (Inl err, p') \<Rightarrow> None
      | (Inr res, p') \<Rightarrow>
          (case exec_prefix ExecOpCode p' xs of
             None \<Rightarrow> None
           | Some (rs, p'') \<Rightarrow> Some (res # rs, p'')))"

definition slot_success :: "('op, 'r) QueuedOpCode \<Rightarrow> 'r \<Rightarrow> ('op, 'r) QueuedOpCode" where
  "slot_success op res = op\<lparr>status := OP_STATUS_SUCCESS, result := ResultValue res\<rparr>"

text \<open>
  \<open>row_for\<close>: the entry of a query result that belongs to the id \<open>k\<close>: \<open>None\<close> for an
  id without a job, and the job's projection, one value per field name, otherwise.
\<close>

definition row_for ::
  "(string \<times> ('op, 'r) QueuedJob) list \<Rightarrow> string list \<Rightarrow> string \<Rightarrow>
     'r field_value list option \<Rightarrow> bool" where
  "row_for js fnames k row =
     (case map_of js k of
        None \<Rightarrow> row = None
      | Some job \<Rightarrow>
          (\<exists>r. GetJobInfo job fnames = Inr r \<and> length r = length fnames \<and> row = Some r))"

text \<open>A sequence of \<open>SubmitJob\<close> calls, one per list of opcodes.\<close>

fun submit_jobs :: "('op, 'r) JobQueue \<Rightarrow> 'op list list \<Rightarrow> ('op, 'r) JobQueue" where
  "submit_jobs q [] = q"
| "submit_jobs q (opcodes # rest) = submit_jobs (snd (SubmitJob q opcodes)) rest"

text \<open>
  A processor for the examples: its state is the list of the opcodes it has been called
  with; it doubles an opcode and raises \<open>err\<close> on the opcode \<open>bad\<close>. The three
  exceptions are an \<open>Exception\<close> with the text \<open>boom\<close>, a raised object that is no
  \<open>Exception\<close>, and an \<open>Exception\<close> whose \<open>str\<close> raises an \<open>Exception\<close>.
\<close>

definition logging_proc :: "exn \<Rightarrow> nat \<Rightarrow> nat list \<Rightarrow> nat \<Rightarrow> (exn + nat) \<times> nat list" where
  "logging_proc err bad log x = (if x = bad then Inl err else Inr (2 * x), log @ [x])"

definition boom :: exn where
  "boom = \<lparr>exn_class = ExceptionClass, exn_str = Inr ''boom''\<rparr>"

definition interrupt :: exn where
  "interrupt = \<lparr>exn_class = NotExceptionClass, exn_str = Inr ''interrupt''\<rparr>"

definition unprintable :: exn where
  "unprintable = \<lparr>exn_class = ExceptionClass, exn_str = Inl ExceptionClass\<rparr>"

section \<open>The vCPU descriptor (lib/hypervisor/hv_kvm/types.py)\<close>

text \<open>
  The values the dictionaries of this module hold: strings, integers and nested
  dictionaries. A dictionary is an association list with one entry per key.
\<close>

datatype pyval = PStr string | PInt int | PDict "(string \<times> pyval) list"

text \<open>
  \<open>KeyError\<close> carries the missing key. \<open>TypeError\<close> stands for subscripting a value
  that is not a dictionary and for a constructor call with a missing or an unexpected
  keyword. The dataclass declares the types of its fields and Python does not check them;
  the record below is typed as declared, and \<open>IllTyped\<close> marks a value that the typed
  record cannot hold (Python raises nothing there).
\<close>

datatype py_error = KeyError string | TypeError | IllTyped

record QMPVCPUItem =
  cpu_id :: string
  driver :: string
  socket_id :: int
  core_id :: int
  thread_id :: int

definition to_dict :: "QMPVCPUItem \<Rightarrow> (string \<times> pyval) list" where
  "to_dict v =
     [(''cpu_id'', PStr (cpu_id v)),
      (''driver'', PStr (driver v)),
      (''socket_id'', PInt (socket_id v)),
      (''core_id'', PInt (core_id v)),
      (''thread_id'', PInt (thread_id v))]"

definition to_qmp_vcpu :: "QMPVCPUItem \<Rightarrow> (string \<times> pyval) list" where
  "to_qmp_vcpu v =
     [(''id'', PStr (cpu_id v)),
      (''driver'', PStr (driver v)),
      (''socket-id'', PInt (socket_id v)),
      (''core-id'', PInt (core_id v)),
      (''thread-id'', PInt (thread_id v))]"

text \<open>\<open>d[k]\<close> on a dictionary, and on a value that may not be one.\<close>

definition dict_getitem :: "(string \<times> pyval) list \<Rightarrow> string \<Rightarrow> py_error + pyval" where
  "dict_getitem d k = (case map_of d k of None \<Rightarrow> Inl (KeyError k) | Some v \<Rightarrow> Inr v)"

fun getitem :: "pyval \<Rightarrow> string \<Rightarrow> py_error + pyval" where
  "getitem (PDict d) k = dict_getitem d k"
| "getitem (PStr s) k = Inl TypeError"
| "getitem (PInt i) k = Inl TypeError"

fun as_str :: "pyval \<Rightarrow> py_error + string" where
  "as_str (PStr s) = Inr s"
| "as_str v = Inl IllTyped"

fun as_int :: "pyval \<Rightarrow> py_error + int" where
  "as_int (PInt i) = Inr i"
| "as_int v = Inl IllTyped"

definition bind_err :: "py_error + 'a \<Rightarrow> ('a \<Rightarrow> py_error + 'b) \<Rightarrow> py_error + 'b" where
  "bind_err m f = (case m of Inl e \<Rightarrow> Inl e | Inr x \<Rightarrow> f x)"

text \<open>
  \<open>QMPVCPUItem(**items)\<close>: a key that is no field and a field without a key are both a
  \<open>TypeError\<close>; then the fields are taken from the dictionary.
\<close>

definition field_names :: "string list" where
  "field_names = [''cpu_id'', ''driver'', ''socket_id'', ''core_id'', ''thread_id'']"

definition from_dict :: "(string \<times> pyval) list \<Rightarrow> py_error + QMPVCPUItem" where
  "from_dict items =
     (if \<not> list_all (\<lambda>k. k \<in> set field_names) (map fst items) then Inl TypeError
      else if \<not> list_all (\<lambda>k. k \<in> set (map fst items)) field_names then Inl TypeError
      else
        bind_err (bind_err (dict_getitem items ''cpu_id'') as_str) (\<lambda>c.
        bind_err (bind_err (dict_getitem items ''driver'') as_str) (\<lambda>d.
        bind_err (bind_err (dict_getitem items ''socket_id'') as_int) (\<lambda>s.
        bind_err (bind_err (dict_getitem items ''core_id'') as_int) (\<lambda>co.
        bind_err (bind_err (dict_getitem items ''thread_id'') as_int) (\<lambda>t.
          Inr \<lparr>cpu_id = c, driver = d, socket_id = s, core_id = co, thread_id = t\<rparr>))))))"

text \<open>
  \<open>from_qmp_vcpu\<close>, in the order the source evaluates: \<open>vcpu['props']\<close>, the
  \<open>props['socket-id']\<close> of the f-string, then the keyword arguments \<open>vcpu['type']\<close>,
  \<open>props['socket-id']\<close>, \<open>props['core-id']\<close> and \<open>props['thread-id']\<close>. The f-string
  formats an integer with \<open>str\<close>.
\<close>

definition from_qmp_vcpu :: "(string \<times> pyval) list \<Rightarrow> py_error + QMPVCPUItem" where
  "from_qmp_vcpu vcpu =
     bind_err (dict_getitem vcpu ''props'') (\<lambda>props.
     bind_err (getitem props ''socket-id'') (\<lambda>sock0.
     bind_err (dict_getitem vcpu ''type'') (\<lambda>ty.
     bind_err (getitem props ''socket-id'') (\<lambda>sock.
     bind_err (getitem props ''core-id'') (\<lambda>core.
     bind_err (getitem props ''thread-id'') (\<lambda>thread.
     bind_err (as_int sock0) (\<lambda>s0.
     bind_err (as_str ty) (\<lambda>d.
     bind_err (as_int sock) (\<lambda>s.
     bind_err (as_int core) (\<lambda>co.
     bind_err (as_int thread) (\<lambda>t.
       Inr \<lparr>cpu_id = ''cpu-'' @ str_int s0, driver = d,
            socket_id = s, core_id = co, thread_id = t\<rparr>)))))))))))"

section \<open>Aggregate status\<close>

lemma status_loop_snd:
  "snd (status_loop xs (st, b)) = (b \<and> (\<forall>x\<in>set xs. status x = OP_STATUS_SUCCESS))"
  by (induction xs arbitrary: st b) auto

lemma status_loop_fst:
  "fst (status_loop xs (st, b)) =
     (let rs = filter (\<lambda>s. s = OP_STATUS_ERROR \<or> s = OP_STATUS_RUNNING) (map status xs)
      in if rs = [] then st
         else if last rs = OP_STATUS_ERROR then JOB_STATUS_ERROR else JOB_STATUS_RUNNING)"
proof (induction xs arbitrary: st b)
  case Nil
  then show ?case by simp
next
  case (Cons x xs)
  show ?case
    by (cases "status x") (simp_all add: Cons.IH Let_def)
qed

lemma GetStatus_last_decides:
  "GetStatus job =
     (let ss = map status (ops job);
          rs = filter (\<lambda>s. s = OP_STATUS_ERROR \<or> s = OP_STATUS_RUNNING) ss
      in if \<forall>s\<in>set ss. s = OP_STATUS_SUCCESS then JOB_STATUS_SUCCESS
         else if rs = [] then JOB_STATUS_QUEUED
         else if last rs = OP_STATUS_ERROR then JOB_STATUS_ERROR
         else JOB_STATUS_RUNNING)"
proof -
  obtain st b where sl: "status_loop (ops job) (JOB_STATUS_QUEUED, True) = (st, b)"
    by (cases "status_loop (ops job) (JOB_STATUS_QUEUED, True)")
  have b: "b = (\<forall>x\<in>set (ops job). status x = OP_STATUS_SUCCESS)"
    using status_loop_snd [of "ops job" JOB_STATUS_QUEUED True] sl by simp
  have st: "st =
      (let rs = filter (\<lambda>s. s = OP_STATUS_ERROR \<or> s = OP_STATUS_RUNNING) (map status (ops job))
       in if rs = [] then JOB_STATUS_QUEUED
          else if last rs = OP_STATUS_ERROR then JOB_STATUS_ERROR else JOB_STATUS_RUNNING)"
    using status_loop_fst [of "ops job" JOB_STATUS_QUEUED True] sl by simp
  show ?thesis
    unfolding GetStatus_def GetStatusUnlocked_def sl
    by (simp add: b st Let_def)
qed

lemma live_filter_no_running:
  "\<forall>x\<in>set post. status x \<noteq> OP_STATUS_RUNNING \<Longrightarrow>
     \<exists>n. filter (\<lambda>s. s = OP_STATUS_ERROR \<or> s = OP_STATUS_RUNNING) (map status post)
           = replicate n OP_STATUS_ERROR"
proof (induction post)
  case Nil
  then show ?case by simp
next
  case (Cons x post)
  then obtain n where
    n: "filter (\<lambda>s. s = OP_STATUS_ERROR \<or> s = OP_STATUS_RUNNING) (map status post)
          = replicate n OP_STATUS_ERROR"
    by auto
  show ?case
  proof (cases "status x = OP_STATUS_ERROR")
    case True
    then have "filter (\<lambda>s. s = OP_STATUS_ERROR \<or> s = OP_STATUS_RUNNING) (map status (x # post))
        = replicate (Suc n) OP_STATUS_ERROR"
      using n by simp
    then show ?thesis by blast
  next
    case False
    then have "filter (\<lambda>s. s = OP_STATUS_ERROR \<or> s = OP_STATUS_RUNNING) (map status (x # post))
        = replicate n OP_STATUS_ERROR"
      using n Cons.prems by simp
    then show ?thesis by blast
  qed
qed

text \<open>
  C2, as amended. The aggregate status is SUCCESS if every slot is SUCCESS; otherwise it
  is ERROR if the last slot, in sequence order, that is ERROR or RUNNING is an ERROR slot;
  otherwise it is RUNNING if any slot is RUNNING; otherwise it is QUEUED. In particular,
  a job with an ERROR slot that no RUNNING slot follows has the aggregate ERROR.
\<close>

theorem GetStatus_priority_last_wins:
  "GetStatus job =
     (let ss = map status (ops job);
          rs = filter (\<lambda>s. s = OP_STATUS_ERROR \<or> s = OP_STATUS_RUNNING) ss
      in if \<forall>s\<in>set ss. s = OP_STATUS_SUCCESS then JOB_STATUS_SUCCESS
         else if rs \<noteq> [] \<and> last rs = OP_STATUS_ERROR then JOB_STATUS_ERROR
         else if OP_STATUS_RUNNING \<in> set ss then JOB_STATUS_RUNNING
         else JOB_STATUS_QUEUED)
   \<and> (\<forall>pre e post.
         ops job = pre @ e # post \<and> status e = OP_STATUS_ERROR
           \<and> (\<forall>x\<in>set post. status x \<noteq> OP_STATUS_RUNNING)
         \<longrightarrow> GetStatus job = JOB_STATUS_ERROR)"
proof (intro conjI allI impI)
  let ?live = "\<lambda>s. s = OP_STATUS_ERROR \<or> s = OP_STATUS_RUNNING"
  let ?rs = "filter ?live (map status (ops job))"
  have run: "OP_STATUS_RUNNING \<in> set (map status (ops job))"
    if "?rs \<noteq> []" "last ?rs \<noteq> OP_STATUS_ERROR"
  proof -
    from that(1) have "last ?rs \<in> set ?rs" by (rule last_in_set)
    then have mem: "last ?rs \<in> set (map status (ops job))" and live: "?live (last ?rs)"
      by simp_all
    from live that(2) have "last ?rs = OP_STATUS_RUNNING" by blast
    with mem show ?thesis by metis
  qed
  have norun: "OP_STATUS_RUNNING \<notin> set (map status (ops job))" if "?rs = []"
  proof
    assume "OP_STATUS_RUNNING \<in> set (map status (ops job))"
    then have "OP_STATUS_RUNNING \<in> set ?rs" by simp
    with that show False by simp
  qed
  show "GetStatus job =
     (let ss = map status (ops job); rs = filter ?live ss
      in if \<forall>s\<in>set ss. s = OP_STATUS_SUCCESS then JOB_STATUS_SUCCESS
         else if rs \<noteq> [] \<and> last rs = OP_STATUS_ERROR then JOB_STATUS_ERROR
         else if OP_STATUS_RUNNING \<in> set ss then JOB_STATUS_RUNNING
         else JOB_STATUS_QUEUED)"
    unfolding GetStatus_last_decides [of job] Let_def
    using run norun by (cases "?rs = []") auto
next
  fix pre e post
  assume a: "ops job = pre @ e # post \<and> status e = OP_STATUS_ERROR
           \<and> (\<forall>x\<in>set post. status x \<noteq> OP_STATUS_RUNNING)"
  then obtain n where
    n: "filter (\<lambda>s. s = OP_STATUS_ERROR \<or> s = OP_STATUS_RUNNING) (map status post)
          = replicate n OP_STATUS_ERROR"
    using live_filter_no_running [of post] by blast
  show "GetStatus job = JOB_STATUS_ERROR"
    using a by (simp add: GetStatus_last_decides Let_def n last_append)
qed

theorem GetStatus_priority_last_wins_witness:
  "GetStatus \<lparr>job_id = ''1'',
      ops = [\<lparr>input = 0::nat, status = OP_STATUS_RUNNING, result = ResultNone :: nat op_result\<rparr>,
             \<lparr>input = 1, status = OP_STATUS_ERROR, result = ResultText ''boom''\<rparr>,
             \<lparr>input = 2, status = OP_STATUS_QUEUED, result = ResultNone\<rparr>]\<rparr>
     = JOB_STATUS_ERROR"
  using GetStatus_priority_last_wins
    [of "\<lparr>job_id = ''1'',
      ops = [\<lparr>input = 0::nat, status = OP_STATUS_RUNNING, result = ResultNone :: nat op_result\<rparr>,
             \<lparr>input = 1, status = OP_STATUS_ERROR, result = ResultText ''boom''\<rparr>,
             \<lparr>input = 2, status = OP_STATUS_QUEUED, result = ResultNone\<rparr>]\<rparr>"]
  by simp

text \<open>
  C2 as stated fails: an ERROR slot followed by a RUNNING slot gives the aggregate
  RUNNING, since the later slot overwrites the status.
\<close>

theorem GetStatus_error_then_running:
  "GetStatus \<lparr>job_id = ''1'',
      ops = [\<lparr>input = 0::nat, status = OP_STATUS_ERROR, result = ResultText ''boom'' :: nat op_result\<rparr>,
             \<lparr>input = 1, status = OP_STATUS_RUNNING, result = ResultNone\<rparr>]\<rparr>
     = JOB_STATUS_RUNNING"
  by (simp add: GetStatus_def GetStatusUnlocked_def)

text \<open>
  C8. A job with exactly one SUCCESS slot and one ERROR slot, in either order, and so
  with no RUNNING slot, has the aggregate status ERROR.
\<close>

theorem GetStatus_success_and_error:
  "GetStatus \<lparr>job_id = jid,
      ops = [\<lparr>input = a, status = OP_STATUS_SUCCESS, result = r1\<rparr>,
             \<lparr>input = b, status = OP_STATUS_ERROR, result = r2\<rparr>]\<rparr> = JOB_STATUS_ERROR
   \<and> GetStatus \<lparr>job_id = jid,
      ops = [\<lparr>input = a, status = OP_STATUS_ERROR, result = r1\<rparr>,
             \<lparr>input = b, status = OP_STATUS_SUCCESS, result = r2\<rparr>]\<rparr> = JOB_STATUS_ERROR"
  by (simp add: GetStatus_def GetStatusUnlocked_def)

section \<open>Submitting jobs\<close>

text \<open>
  C1, as amended. A call of SubmitJob with an empty opcode sequence fails with the
  exception of the job's constructor and stores no job and hands none to the worker pool,
  but it consumes a job id: the counter is one higher after the call, and the next
  successful SubmitJob returns the id after the one it would have returned had the
  failing call never happened.
\<close>

theorem SubmitJob_empty_consumes_id:
  "SubmitJob q [] = (Inl (Exception ''No opcodes''), q\<lparr>last_job_id := last_job_id q + 1\<rparr>)
   \<and> jobs (snd (SubmitJob q [])) = jobs q
   \<and> tasks (snd (SubmitJob q [])) = tasks q
   \<and> (opcodes \<noteq> [] \<longrightarrow>
        fst (SubmitJob q opcodes) = Inr (str_int (last_job_id q + 1))
        \<and> fst (SubmitJob (snd (SubmitJob q [])) opcodes) = Inr (str_int (last_job_id q + 2)))"
  by (simp add: SubmitJob_def NewJobIdUnlocked_def QueuedJob_init_def Let_def add.commute)

theorem SubmitJob_empty_consumes_id_witness:
  "[0::nat] \<noteq> []
   \<and> SubmitJob (JobQueue_init :: (nat, nat) JobQueue) []
       = (Inl (Exception ''No opcodes''), \<lparr>last_job_id = 1, jobs = [], tasks = []\<rparr>)
   \<and> fst (SubmitJob (JobQueue_init :: (nat, nat) JobQueue) [0]) = Inr ''1''
   \<and> fst (SubmitJob (snd (SubmitJob (JobQueue_init :: (nat, nat) JobQueue) [])) [0]) = Inr ''2''"
proof -
  let ?q = "JobQueue_init :: (nat, nat) JobQueue"
  have h: "[0::nat] \<noteq> []" by simp
  have s1: "str_int (last_job_id ?q + 1) = ''1''" and s2: "str_int (last_job_id ?q + 2) = ''2''"
    by (simp_all add: JobQueue_init_def str_int_def str_nat.simps digit_char_def)
  have q1: "?q\<lparr>last_job_id := last_job_id ?q + 1\<rparr> = \<lparr>last_job_id = 1, jobs = [], tasks = []\<rparr>"
    by (simp add: JobQueue_init_def)
  from SubmitJob_empty_consumes_id [of ?q "[0::nat]"] h
  show ?thesis unfolding s1 s2 q1 by blast
qed

text \<open>
  C1 as stated fails: after the failing call the queue is not the queue before it, and
  the next successful call returns another id than it would have returned without it.
\<close>

theorem SubmitJob_empty_changes_queue:
  "snd (SubmitJob (JobQueue_init :: (nat, nat) JobQueue) []) \<noteq> JobQueue_init
   \<and> fst (SubmitJob (snd (SubmitJob (JobQueue_init :: (nat, nat) JobQueue) [])) [0])
       \<noteq> fst (SubmitJob (JobQueue_init :: (nat, nat) JobQueue) [0])"
  by (simp add: SubmitJob_def NewJobIdUnlocked_def QueuedJob_init_def Let_def
      JobQueue_init_def str_int_def str_nat.simps digit_char_def)

section \<open>Failure of an opcode\<close>

lemma run_loop_failure:
  assumes "exec_prefix E p (map input pre) = Some (rs, pk)"
    and "E pk (input s) = (Inl e, pk')"
  shows "run_loop E p (pre @ s # post) =
           (Some (if is_Exception e
                  then (case exn_str e of Inr txt \<Rightarrow> exn_class e | Inl c \<Rightarrow> c, True)
                  else (exn_class e, False)),
            map2 slot_success pre rs
              @ (if is_Exception e
                 then (case exn_str e of
                         Inr txt \<Rightarrow> s\<lparr>status := OP_STATUS_ERROR, result := ResultText txt\<rparr>
                       | Inl c \<Rightarrow> s\<lparr>status := OP_STATUS_ERROR\<rparr>)
                 else s\<lparr>status := OP_STATUS_RUNNING\<rparr>) # post,
            pk')"
  using assms
proof (induction pre arbitrary: p rs)
  case Nil
  then show ?case by (simp split: sum.splits)
next
  case (Cons a pre)
  obtain r p1 where a: "E p (input a) = (Inr r, p1)"
    using Cons.prems(1) by (auto split: prod.splits sum.splits)
  obtain rs' where rs': "exec_prefix E p1 (map input pre) = Some (rs', pk)" "rs = r # rs'"
    using Cons.prems(1) a by (auto split: option.splits)
  show ?case
    using Cons.IH [OF rs'(1) Cons.prems(2)] a rs'(2)
    by (simp add: slot_success_def)
qed

lemma exec_prefix_length: "exec_prefix E p xs = Some (rs, p') \<Longrightarrow> length rs = length xs"
  by (induction xs arbitrary: p rs) (auto split: prod.splits sum.splits option.splits)

lemma map2_slot_success_init:
  "length pre = length rs \<Longrightarrow>
     map2 slot_success (map QueuedOpCode_init pre) rs
       = map2 (\<lambda>i r. \<lparr>input = i, status = OP_STATUS_SUCCESS, result = ResultValue r\<rparr>) pre rs"
  by (induction pre rs rule: list_induct2) (simp_all add: slot_success_def QueuedOpCode_init_def)

text \<open>
  The state a failure leaves, in full: for a job as its constructor builds it from the
  opcodes \<open>pre @ x # post\<close> and a processor that returns on \<open>pre\<close> and raises \<open>e\<close> on
  \<open>x\<close>.
\<close>

lemma Run_failure_state:
  fixes job :: "('op, 'r) QueuedJob"
  assumes "QueuedJob_init (pre @ x # post) jid = Inr job"
    and "exec_prefix ExecOpCode p pre = Some (rs, pk)"
    and "ExecOpCode pk x = (Inl e, pk')"
  shows "snd (Run ExecOpCode p job) =
     (\<lparr>job_id = jid,
       ops = map2 (\<lambda>i r. \<lparr>input = i, status = OP_STATUS_SUCCESS, result = ResultValue r\<rparr>) pre rs
             @ (if is_Exception e
                then (case exn_str e of
                        Inr txt \<Rightarrow> \<lparr>input = x, status = OP_STATUS_ERROR, result = ResultText txt\<rparr>
                      | Inl c \<Rightarrow> \<lparr>input = x, status = OP_STATUS_ERROR, result = ResultNone\<rparr>)
                else \<lparr>input = x, status = OP_STATUS_RUNNING, result = ResultNone\<rparr>)
             # map (\<lambda>i. \<lparr>input = i, status = OP_STATUS_QUEUED, result = ResultNone\<rparr>) post\<rparr>,
      pk')"
proof -
  let ?init = "QueuedOpCode_init :: 'op \<Rightarrow> ('op, 'r) QueuedOpCode"
  have job: "job = \<lparr>job_id = jid, ops = map ?init pre @ ?init x # map ?init post\<rparr>"
    using assms(1) by (simp add: QueuedJob_init_def)
  have pre: "exec_prefix ExecOpCode p (map input (map ?init pre)) = Some (rs, pk)"
    using assms(2) by (simp add: comp_def QueuedOpCode_init_def)
  have x: "ExecOpCode pk (input (?init x)) = (Inl e, pk')"
    using assms(3) by (simp add: QueuedOpCode_init_def)
  have len: "length pre = length rs"
    using exec_prefix_length [OF assms(2)] by simp
  have post: "map ?init post
      = map (\<lambda>i. \<lparr>input = i, status = OP_STATUS_QUEUED, result = ResultNone\<rparr>) post"
    by (simp add: QueuedOpCode_init_def)
  have rl: "run_loop ExecOpCode p (map ?init pre @ ?init x # map ?init post) =
           (Some (if is_Exception e
                  then (case exn_str e of Inr txt \<Rightarrow> exn_class e | Inl c \<Rightarrow> c, True)
                  else (exn_class e, False)),
            map2 slot_success (map ?init pre) rs
              @ (if is_Exception e
                 then (case exn_str e of
                         Inr txt \<Rightarrow> (?init x)\<lparr>status := OP_STATUS_ERROR, result := ResultText txt\<rparr>
                       | Inl c \<Rightarrow> (?init x)\<lparr>status := OP_STATUS_ERROR\<rparr>)
                 else (?init x)\<lparr>status := OP_STATUS_RUNNING\<rparr>) # map ?init post,
            pk')"
    by (rule run_loop_failure [OF pre x])
  have slot: "(if is_Exception e
                 then (case exn_str e of
                         Inr txt \<Rightarrow> (?init x)\<lparr>status := OP_STATUS_ERROR, result := ResultText txt\<rparr>
                       | Inl c \<Rightarrow> (?init x)\<lparr>status := OP_STATUS_ERROR\<rparr>)
                 else (?init x)\<lparr>status := OP_STATUS_RUNNING\<rparr>)
      = (if is_Exception e
                then (case exn_str e of
                        Inr txt \<Rightarrow> \<lparr>input = x, status = OP_STATUS_ERROR, result = ResultText txt\<rparr>
                      | Inl c \<Rightarrow> \<lparr>input = x, status = OP_STATUS_ERROR, result = ResultNone\<rparr>)
                else \<lparr>input = x, status = OP_STATUS_RUNNING, result = ResultNone\<rparr>)"
    by (simp add: QueuedOpCode_init_def split: sum.splits)
  have "snd (Run ExecOpCode p job) =
      (\<lparr>job_id = jid,
        ops = map2 slot_success (map ?init pre) rs
              @ (if is_Exception e
                 then (case exn_str e of
                         Inr txt \<Rightarrow> (?init x)\<lparr>status := OP_STATUS_ERROR, result := ResultText txt\<rparr>
                       | Inl c \<Rightarrow> (?init x)\<lparr>status := OP_STATUS_ERROR\<rparr>)
                 else (?init x)\<lparr>status := OP_STATUS_RUNNING\<rparr>) # map ?init post\<rparr>,
       pk')"
    by (simp add: Run_def job rl)
  then show ?thesis
    unfolding map2_slot_success_init [OF len] post slot .
qed

text \<open>
  C4, as amended. Take a job as its constructor builds it from the opcodes
  \<open>pre @ x # post\<close>, and a processor that returns on the opcodes \<open>pre\<close> and fails on \<open>x\<close>,
  the opcode at position \<open>k = length pre\<close>, raising \<open>e\<close>. After Run, every slot after
  position k is QUEUED with no result, the slots before it are SUCCESS with their
  results, and the processor is in the state the failing call left: it has not been
  called on any opcode of \<open>post\<close>. If \<open>e\<close> is an instance of \<open>Exception\<close>, slot k is
  ERROR; if moreover \<open>str\<close> returns the text of \<open>e\<close>, that text is the result of slot k.
\<close>

theorem Run_failure_aborts_rest:
  fixes job :: "('op, 'r) QueuedJob"
  assumes "QueuedJob_init (pre @ x # post) jid = Inr job"
    and "exec_prefix ExecOpCode p pre = Some (rs, pk)"
    and "ExecOpCode pk x = (Inl e, pk')"
  shows "\<exists>sk. snd (Run ExecOpCode p job) =
       (\<lparr>job_id = jid,
         ops = map2 (\<lambda>i r. \<lparr>input = i, status = OP_STATUS_SUCCESS, result = ResultValue r\<rparr>) pre rs
               @ sk
               # map (\<lambda>i. \<lparr>input = i, status = OP_STATUS_QUEUED, result = ResultNone\<rparr>) post\<rparr>,
        pk')
     \<and> input sk = x
     \<and> (is_Exception e \<longrightarrow> status sk = OP_STATUS_ERROR)
     \<and> (\<forall>txt. is_Exception e \<and> exn_str e = Inr txt \<longrightarrow> result sk = ResultText txt)"
proof -
  let ?sk = "if is_Exception e
                then (case exn_str e of
                        Inr txt \<Rightarrow> \<lparr>input = x, status = OP_STATUS_ERROR, result = ResultText txt\<rparr>
                      | Inl c \<Rightarrow> \<lparr>input = x, status = OP_STATUS_ERROR, result = ResultNone\<rparr>)
                else \<lparr>input = x, status = OP_STATUS_RUNNING, result = ResultNone :: 'r op_result\<rparr>"
  have 1: "input ?sk = x" by (simp split: sum.splits)
  have 2: "is_Exception e \<longrightarrow> status ?sk = OP_STATUS_ERROR" by (simp split: sum.splits)
  have 3: "\<forall>txt. is_Exception e \<and> exn_str e = Inr txt \<longrightarrow> result ?sk = ResultText txt" by simp
  show ?thesis
    by (intro exI [of _ ?sk] conjI) (rule Run_failure_state [OF assms] 1 2 3)+
qed

theorem Run_failure_aborts_rest_witness:
  "QueuedJob_init ([1] @ 7 # [3]) ''1''
      = Inr \<lparr>job_id = ''1'', ops = map QueuedOpCode_init [1::nat, 7, 3] :: (nat, nat) QueuedOpCode list\<rparr>
   \<and> snd (Run (logging_proc boom 7) [] \<lparr>job_id = ''1'', ops = map QueuedOpCode_init [1::nat, 7, 3]\<rparr>)
      = (\<lparr>job_id = ''1'',
          ops = [\<lparr>input = 1, status = OP_STATUS_SUCCESS, result = ResultValue 2\<rparr>,
                 \<lparr>input = 7, status = OP_STATUS_ERROR, result = ResultText ''boom''\<rparr>,
                 \<lparr>input = 3, status = OP_STATUS_QUEUED, result = ResultNone\<rparr>]\<rparr>,
         [1, 7])"
proof -
  let ?job = "\<lparr>job_id = ''1'', ops = map QueuedOpCode_init [1::nat, 7, 3] :: (nat, nat) QueuedOpCode list\<rparr>"
  have h1: "QueuedJob_init ([1] @ 7 # [3]) ''1'' = Inr ?job"
    by (simp add: QueuedJob_init_def)
  have h2: "exec_prefix (logging_proc boom 7) [] [1] = Some ([2], [1])"
    by (simp add: logging_proc_def)
  have h3: "logging_proc boom 7 [1] 7 = (Inl boom, [1, 7])"
    by (simp add: logging_proc_def)
  have e: "is_Exception boom" "exn_str boom = Inr ''boom''"
    by (simp_all add: is_Exception_def boom_def)
  from Run_failure_aborts_rest [OF h1 h2 h3] obtain sk :: "(nat, nat) QueuedOpCode" where
    run: "snd (Run (logging_proc boom 7) [] ?job) =
       (\<lparr>job_id = ''1'',
         ops = map2 (\<lambda>i r. \<lparr>input = i, status = OP_STATUS_SUCCESS, result = ResultValue r\<rparr>) [1] [2]
               @ sk
               # map (\<lambda>i. \<lparr>input = i, status = OP_STATUS_QUEUED, result = ResultNone\<rparr>) [3]\<rparr>,
        [1, 7])"
    and sk: "input sk = 7" "is_Exception boom \<longrightarrow> status sk = OP_STATUS_ERROR"
      "\<forall>txt. is_Exception boom \<and> exn_str boom = Inr txt \<longrightarrow> result sk = ResultText txt"
    by blast
  have "sk = \<lparr>input = 7, status = OP_STATUS_ERROR, result = ResultText ''boom''\<rparr>"
    using sk e by (cases sk) simp
  then have v: "snd (Run (logging_proc boom 7) [] ?job) =
     (\<lparr>job_id = ''1'',
          ops = [\<lparr>input = 1, status = OP_STATUS_SUCCESS, result = ResultValue 2\<rparr>,
                 \<lparr>input = 7, status = OP_STATUS_ERROR, result = ResultText ''boom''\<rparr>,
                 \<lparr>input = 3, status = OP_STATUS_QUEUED, result = ResultNone\<rparr>]\<rparr>,
         [1, 7])"
    using run by simp
  show ?thesis
    by (rule conjI [OF h1 v])
qed

text \<open>
  C4 as stated fails. When the processor raises an object that is no instance of
  \<open>Exception\<close>, slot k is left RUNNING with no result; when it raises an \<open>Exception\<close>
  whose \<open>str\<close> raises, slot k is ERROR with no result.
\<close>

theorem Run_failure_not_recorded:
  "snd (Run (logging_proc interrupt 7) []
          \<lparr>job_id = ''1'', ops = map QueuedOpCode_init [1::nat, 7, 3] :: (nat, nat) QueuedOpCode list\<rparr>)
      = (\<lparr>job_id = ''1'',
          ops = [\<lparr>input = 1, status = OP_STATUS_SUCCESS, result = ResultValue 2\<rparr>,
                 \<lparr>input = 7, status = OP_STATUS_RUNNING, result = ResultNone\<rparr>,
                 \<lparr>input = 3, status = OP_STATUS_QUEUED, result = ResultNone\<rparr>]\<rparr>,
         [1, 7])
   \<and> snd (Run (logging_proc unprintable 7) []
          \<lparr>job_id = ''1'', ops = map QueuedOpCode_init [1::nat, 7, 3] :: (nat, nat) QueuedOpCode list\<rparr>)
      = (\<lparr>job_id = ''1'',
          ops = [\<lparr>input = 1, status = OP_STATUS_SUCCESS, result = ResultValue 2\<rparr>,
                 \<lparr>input = 7, status = OP_STATUS_ERROR, result = ResultNone\<rparr>,
                 \<lparr>input = 3, status = OP_STATUS_QUEUED, result = ResultNone\<rparr>]\<rparr>,
         [1, 7])"
  by (simp add: Run_def logging_proc_def interrupt_def unprintable_def is_Exception_def
      QueuedOpCode_init_def)

text \<open>
  C5, as amended. When the processor fails on some opcode with an instance of
  \<open>Exception\<close>, Run puts that opcode's slot to ERROR, stores the text of the exception as
  the slot's result if \<open>str\<close> returns it, and then returns normally: the exception is
  logged inside Run and does not reach the caller.
\<close>

theorem Run_swallows_failure:
  assumes "ops job = pre @ s # post"
    and "exec_prefix ExecOpCode p (map input pre) = Some (rs, pk)"
    and "ExecOpCode pk (input s) = (Inl e, pk')"
    and "is_Exception e"
  shows "fst (Run ExecOpCode p job) = Inr ()
    \<and> status (ops (fst (snd (Run ExecOpCode p job))) ! length pre) = OP_STATUS_ERROR
    \<and> (\<forall>txt. exn_str e = Inr txt \<longrightarrow>
          result (ops (fst (snd (Run ExecOpCode p job))) ! length pre) = ResultText txt)"
proof -
  have len: "length (map2 slot_success pre rs) = length pre"
    using exec_prefix_length [OF assms(2)] by simp
  show ?thesis
    unfolding Run_def assms(1) run_loop_failure [OF assms(2,3), of post]
    using assms(4) len
    by (simp add: nth_append split: sum.splits)
qed

theorem Run_swallows_failure_witness:
  "fst (Run (logging_proc boom 7) []
          \<lparr>job_id = ''1'', ops = map QueuedOpCode_init [1, 7, 3] :: (nat, nat) QueuedOpCode list\<rparr>)
     = Inr ()"
proof -
  let ?s = "QueuedOpCode_init :: nat \<Rightarrow> (nat, nat) QueuedOpCode"
  let ?job = "\<lparr>job_id = ''1'', ops = map ?s [1, 7, 3]\<rparr>"
  have h1: "ops ?job = [?s 1] @ ?s 7 # [?s 3]" by simp
  have h2: "exec_prefix (logging_proc boom 7) [] (map input [?s 1]) = Some ([2], [1])"
    by (simp add: logging_proc_def QueuedOpCode_init_def)
  have h3: "logging_proc boom 7 [1] (input (?s 7)) = (Inl boom, [1, 7])"
    by (simp add: logging_proc_def QueuedOpCode_init_def)
  have h4: "is_Exception boom"
    by (simp add: is_Exception_def boom_def)
  show ?thesis
    using Run_swallows_failure [OF h1 h2 h3 h4] by simp
qed

text \<open>
  C5 as stated fails: with a processor that raises an exception on the only opcode, Run
  returns normally, the slot in ERROR.
\<close>

theorem Run_returns_after_failure:
  "Run (logging_proc boom 7) []
       \<lparr>job_id = ''1'', ops = [\<lparr>input = 7, status = OP_STATUS_QUEUED, result = ResultNone\<rparr>]\<rparr>
     = (Inr (),
        \<lparr>job_id = ''1'', ops = [\<lparr>input = 7, status = OP_STATUS_ERROR, result = ResultText ''boom''\<rparr>]\<rparr>,
        [7])"
  by (simp add: Run_def is_Exception_def logging_proc_def boom_def)

section \<open>Query results\<close>

lemma GetJobInfo_loop_valid:
  "set fnames \<subseteq> {''id'', ''status'', ''result''} \<Longrightarrow>
     \<exists>r. GetJobInfo_loop job fnames row = Inr (row @ r) \<and> length r = length fnames"
proof (induction fnames arbitrary: row)
  case Nil
  then show ?case by simp
next
  case (Cons f fnames)
  from Cons.prems have sub: "set fnames \<subseteq> {''id'', ''status'', ''result''}"
    and f: "f = ''id'' \<or> f = ''status'' \<or> f = ''result''" by auto
  obtain v where step: "GetJobInfo_loop job (f # fnames) row = GetJobInfo_loop job fnames (row @ [v])"
    using f by auto
  from Cons.IH [OF sub, of "row @ [v]"] obtain r where
    "GetJobInfo_loop job fnames (row @ [v]) = Inr ((row @ [v]) @ r)" "length r = length fnames"
    by blast
  then have "GetJobInfo_loop job (f # fnames) row = Inr (row @ (v # r)) \<and> length (v # r) = length (f # fnames)"
    using step by simp
  then show ?case by blast
qed

lemma GetJobInfo_loop_invalid:
  "\<not> set fnames \<subseteq> {''id'', ''status'', ''result''} \<Longrightarrow>
     GetJobInfo_loop job fnames row =
       Inl (OpExecError (invalid_field_msg
              (hd (filter (\<lambda>f. f \<notin> {''id'', ''status'', ''result''}) fnames))))"
proof (induction fnames arbitrary: row)
  case Nil
  then show ?case by simp
next
  case (Cons f fnames)
  show ?case
  proof (cases "f \<in> {''id'', ''status'', ''result''}")
    case True
    then have "\<not> set fnames \<subseteq> {''id'', ''status'', ''result''}"
      using Cons.prems by auto
    from Cons.IH [OF this] True show ?thesis by auto
  next
    case False
    then show ?thesis by simp
  qed
qed

lemma QueryJobs_loop_valid:
  assumes "set fnames \<subseteq> {''id'', ''status'', ''result''}"
  shows "\<exists>rows. QueryJobs_loop js ids fnames acc = Inr (acc @ rows)
            \<and> list_all2 (row_for js fnames) ids rows"
proof (induction ids arbitrary: acc)
  case Nil
  then show ?case by simp
next
  case (Cons k ids)
  show ?case
  proof (cases "map_of js k")
    case None
    from Cons.IH [of "acc @ [None]"] obtain rows where
      "QueryJobs_loop js ids fnames (acc @ [None]) = Inr ((acc @ [None]) @ rows)"
      "list_all2 (row_for js fnames) ids rows" by blast
    then have "QueryJobs_loop js (k # ids) fnames acc = Inr (acc @ (None # rows))
        \<and> list_all2 (row_for js fnames) (k # ids) (None # rows)"
      using None by (simp add: row_for_def)
    then show ?thesis by blast
  next
    case (Some job)
    from GetJobInfo_loop_valid [OF assms, of job "[]"] obtain r where
      r: "GetJobInfo job fnames = Inr r" "length r = length fnames"
      by (auto simp: GetJobInfo_def)
    from Cons.IH [of "acc @ [Some r]"] obtain rows where
      "QueryJobs_loop js ids fnames (acc @ [Some r]) = Inr ((acc @ [Some r]) @ rows)"
      "list_all2 (row_for js fnames) ids rows" by blast
    then have "QueryJobs_loop js (k # ids) fnames acc = Inr (acc @ (Some r # rows))
        \<and> list_all2 (row_for js fnames) (k # ids) (Some r # rows)"
      using Some r by (simp add: row_for_def)
    then show ?thesis by blast
  qed
qed

lemma QueryJobs_loop_invalid:
  assumes "\<not> set fnames \<subseteq> {''id'', ''status'', ''result''}"
    and "\<exists>k\<in>set ids. map_of js k \<noteq> None"
  shows "QueryJobs_loop js ids fnames acc =
       Inl (OpExecError (invalid_field_msg
              (hd (filter (\<lambda>f. f \<notin> {''id'', ''status'', ''result''}) fnames))))"
  using assms(2)
proof (induction ids arbitrary: acc)
  case Nil
  then show ?case by simp
next
  case (Cons k ids)
  show ?case
  proof (cases "map_of js k")
    case None
    then have "\<exists>k\<in>set ids. map_of js k \<noteq> None" using Cons.prems by auto
    from Cons.IH [OF this] None show ?thesis by simp
  next
    case (Some job)
    then show ?thesis
      using GetJobInfo_loop_invalid [OF assms(1), of job "[]"]
      by (simp add: GetJobInfo_def)
  qed
qed

lemma QueryJobs_loop_no_known:
  "\<forall>k\<in>set ids. map_of js k = None \<Longrightarrow>
     QueryJobs_loop js ids fnames acc = Inr (acc @ map (\<lambda>_. None) ids)"
  by (induction ids arbitrary: acc) auto

lemma sorted_lexical:
  "sorted (ks :: string list) \<Longrightarrow>
     sorted_wrt (\<lambda>a b. a = b \<or> (a, b) \<in> lexord {(c, d). (of_char c :: nat) < of_char d}) ks"
  by (induction ks) (auto simp: list_le_def list_less_def less_char_def)

text \<open>
  C3, as amended. A QueryJobs call whose job ids are absent or empty covers all ids of
  the job table in ascending order of the id strings compared character by character
  (so that \<open>''10''\<close> comes before \<open>''2''\<close>), and the entry for an id is the projection of
  the job stored under it.
\<close>

theorem QueryJobs_all_lexical_order:
  assumes "job_ids = None \<or> job_ids = Some []"
    and "set fnames \<subseteq> {''id'', ''status'', ''result''}"
  shows "\<exists>ks rows. QueryJobs q job_ids fnames = Inr rows
      \<and> set ks = fst ` set (jobs q) \<and> length ks = length (jobs q)
      \<and> sorted_wrt (\<lambda>a b. a = b \<or> (a, b) \<in> lexord {(c, d). (of_char c :: nat) < of_char d}) ks
      \<and> list_all2 (\<lambda>k row. \<exists>job r. map_of (jobs q) k = Some job
                       \<and> GetJobInfo job fnames = Inr r \<and> row = Some r) ks rows"
proof -
  let ?ks = "sort (map fst (jobs q))"
  have q: "QueryJobs q job_ids fnames = QueryJobs_loop (jobs q) ?ks fnames []"
  proof -
    from assms(1) show ?thesis
    proof
      assume "job_ids = None"
      then show ?thesis by (simp add: QueryJobs_def)
    next
      assume "job_ids = Some []"
      then show ?thesis by (simp add: QueryJobs_def)
    qed
  qed
  have "\<exists>rows. QueryJobs_loop (jobs q) ?ks fnames [] = Inr rows
            \<and> list_all2 (row_for (jobs q) fnames) ?ks rows"
    using QueryJobs_loop_valid [OF assms(2), of "jobs q" ?ks "[]"] by simp
  then obtain rows where
    rows: "QueryJobs_loop (jobs q) ?ks fnames [] = Inr rows"
      "list_all2 (row_for (jobs q) fnames) ?ks rows"
    by blast
  have known: "map_of (jobs q) k \<noteq> None" if "k \<in> set ?ks" for k
  proof -
    from that have "k \<in> fst ` set (jobs q)" by simp
    then show ?thesis by (simp add: map_of_eq_None_iff)
  qed
  have all: "list_all2 (\<lambda>k row. \<exists>job r. map_of (jobs q) k = Some job
                       \<and> GetJobInfo job fnames = Inr r \<and> row = Some r) ?ks rows"
    using rows(2)
  proof (rule list.rel_mono_strong)
    fix k row
    assume "k \<in> set ?ks" and r: "row_for (jobs q) fnames k row"
    then obtain job where "map_of (jobs q) k = Some job"
      using known by blast
    with r show "\<exists>job r. map_of (jobs q) k = Some job
                       \<and> GetJobInfo job fnames = Inr r \<and> row = Some r"
      by (auto simp: row_for_def)
  qed
  have s: "set ?ks = fst ` set (jobs q)" and l: "length ?ks = length (jobs q)" by simp_all
  have "sorted ?ks" by (rule sorted_sort)
  then have lex: "sorted_wrt (\<lambda>a b. a = b \<or> (a, b) \<in> lexord {(c, d). (of_char c :: nat) < of_char d}) ?ks"
    by (rule sorted_lexical)
  have r: "QueryJobs q job_ids fnames = Inr rows"
    using q rows(1) by simp
  show ?thesis
    by (intro exI conjI) (rule r s l lex all)+
qed

theorem QueryJobs_all_lexical_order_witness:
  "((None :: string list option) = None \<or> (None :: string list option) = Some [])
   \<and> set [''id''] \<subseteq> {''id'', ''status'', ''result''}
   \<and> (\<exists>ks rows. QueryJobs (submit_jobs JobQueue_init (replicate 10 [0::nat]) :: (nat, nat) JobQueue)
                   None [''id''] = Inr rows
      \<and> set ks = fst ` set (jobs (submit_jobs JobQueue_init (replicate 10 [0::nat]) :: (nat, nat) JobQueue))
      \<and> length ks = length (jobs (submit_jobs JobQueue_init (replicate 10 [0::nat]) :: (nat, nat) JobQueue))
      \<and> sorted_wrt (\<lambda>a b. a = b \<or> (a, b) \<in> lexord {(c, d). (of_char c :: nat) < of_char d}) ks
      \<and> list_all2 (\<lambda>k row. \<exists>job r.
             map_of (jobs (submit_jobs JobQueue_init (replicate 10 [0::nat]) :: (nat, nat) JobQueue)) k = Some job
               \<and> GetJobInfo job [''id''] = Inr r \<and> row = Some r) ks rows)"
proof -
  have h1: "(None :: string list option) = None \<or> (None :: string list option) = Some []"
    by simp
  have h2: "set [''id''] \<subseteq> {''id'', ''status'', ''result''}"
    by simp
  show ?thesis
    using h1 h2
      QueryJobs_all_lexical_order [OF h1 h2,
        of "submit_jobs JobQueue_init (replicate 10 [0::nat]) :: (nat, nat) JobQueue"]
    by blast
qed

text \<open>
  C3 as stated fails: with ten jobs stored, the ids come in the order of the strings,
  \<open>''10''\<close> before \<open>''2''\<close>, not in the order of their numeric values.
\<close>

theorem QueryJobs_ten_jobs_order:
  "QueryJobs (submit_jobs JobQueue_init (replicate 10 [0::nat]) :: (nat, nat) JobQueue) None [''id'']
     = Inr [Some [FieldId ''1''], Some [FieldId ''10''], Some [FieldId ''2''],
            Some [FieldId ''3''], Some [FieldId ''4''], Some [FieldId ''5''],
            Some [FieldId ''6''], Some [FieldId ''7''], Some [FieldId ''8''],
            Some [FieldId ''9'']]"
  by code_simp

text \<open>
  C6, as amended. A QueryJobs call whose field list contains an unrecognized field name
  and whose ids, as resolved, include the id of at least one stored job fails as a whole
  with an error that names the first unrecognized field, and returns no rows.
\<close>

theorem QueryJobs_unknown_field_fails:
  assumes "\<not> set fnames \<subseteq> {''id'', ''status'', ''result''}"
    and "case job_ids of
           None \<Rightarrow> jobs q \<noteq> []
         | Some l \<Rightarrow> if l = [] then jobs q \<noteq> [] else \<exists>k\<in>set l. map_of (jobs q) k \<noteq> None"
  shows "QueryJobs q job_ids fnames =
       Inl (OpExecError (invalid_field_msg
              (hd (filter (\<lambda>f. f \<notin> {''id'', ''status'', ''result''}) fnames))))"
proof -
  let ?all = "map fst (jobs q)"
  have all: "\<exists>k\<in>set (sort ?all). map_of (jobs q) k \<noteq> None" if "jobs q \<noteq> []"
  proof -
    from that obtain kv where kv: "kv \<in> set (jobs q)"
      by (cases "jobs q") auto
    then have "fst kv \<in> fst ` set (jobs q)" by (rule imageI)
    then have "map_of (jobs q) (fst kv) \<noteq> None" by (simp add: map_of_eq_None_iff)
    moreover have "fst kv \<in> set (sort ?all)" using kv by simp
    ultimately show ?thesis by blast
  qed
  show ?thesis
  proof (cases job_ids)
    case None
    then have "jobs q \<noteq> []" using assms(2) by simp
    from QueryJobs_loop_invalid [OF assms(1) all [OF this]] None
    show ?thesis by (simp add: QueryJobs_def)
  next
    case (Some l)
    show ?thesis
    proof (cases "l = []")
      case True
      then have "jobs q \<noteq> []" using assms(2) Some by simp
      from QueryJobs_loop_invalid [OF assms(1) all [OF this]] Some True
      show ?thesis by (simp add: QueryJobs_def)
    next
      case False
      then have "\<exists>k\<in>set (sort l). map_of (jobs q) k \<noteq> None"
        using assms(2) Some by simp
      from QueryJobs_loop_invalid [OF assms(1) this] Some False
      show ?thesis by (simp add: QueryJobs_def)
    qed
  qed
qed

theorem QueryJobs_unknown_field_fails_witness:
  "QueryJobs (submit_jobs JobQueue_init [[0::nat]] :: (nat, nat) JobQueue)
       (Some [''1'', ''99'']) [''id'', ''bogus'', ''status'', ''nope'']
     = Inl (OpExecError (invalid_field_msg ''bogus''))"
proof -
  let ?q = "submit_jobs JobQueue_init [[0::nat]] :: (nat, nat) JobQueue"
  have q: "jobs ?q = [(''1'', \<lparr>job_id = ''1'', ops = [QueuedOpCode_init 0]\<rparr>)]"
    by (simp add: JobQueue_init_def SubmitJob_def NewJobIdUnlocked_def QueuedJob_init_def
        str_int_def str_nat.simps digit_char_def)
  have h1: "\<not> set [''id'', ''bogus'', ''status'', ''nope''] \<subseteq> {''id'', ''status'', ''result''}"
    by simp
  have h2: "case Some [''1'', ''99''] of
           None \<Rightarrow> jobs ?q \<noteq> []
         | Some l \<Rightarrow> if l = [] then jobs ?q \<noteq> [] else \<exists>k\<in>set l. map_of (jobs ?q) k \<noteq> None"
    unfolding q by simp
  show ?thesis
    using QueryJobs_unknown_field_fails [OF h1 h2] by simp
qed

text \<open>
  C6 as stated fails: when no requested id has a job, the field names are never looked
  at, and the call returns its rows, here one not-found entry.
\<close>

theorem QueryJobs_unknown_field_unknown_id:
  "QueryJobs (JobQueue_init :: (nat, nat) JobQueue) (Some [''99'']) [''bogus''] = Inr [None]"
  by (simp add: QueryJobs_def JobQueue_init_def)

text \<open>
  C7, as amended. For a QueryJobs call with a non-empty list of N requested ids and a
  valid field list F, the result is a sequence of N entries in the ascending order of the
  requested id strings (the call sorts the list first): the entry at each position belongs
  to the id at that position of the sorted list; an id without a job yields the not-found
  entry at its position, and an id with a job yields the sequence of exactly |F| projected
  values.
\<close>

theorem QueryJobs_rows_follow_sorted_ids:
  assumes "ids \<noteq> []"
    and "set fnames \<subseteq> {''id'', ''status'', ''result''}"
  shows "\<exists>rows. QueryJobs q (Some ids) fnames = Inr rows
      \<and> length rows = length ids
      \<and> list_all2 (row_for (jobs q) fnames) (sort ids) rows"
proof -
  have "\<exists>rows. QueryJobs_loop (jobs q) (sort ids) fnames [] = Inr rows
            \<and> list_all2 (row_for (jobs q) fnames) (sort ids) rows"
    using QueryJobs_loop_valid [OF assms(2), of "jobs q" "sort ids" "[]"] by simp
  then obtain rows where
    rows: "QueryJobs_loop (jobs q) (sort ids) fnames [] = Inr rows"
      "list_all2 (row_for (jobs q) fnames) (sort ids) rows"
    by blast
  have r: "QueryJobs q (Some ids) fnames = Inr rows"
    using assms(1) rows(1) by (simp add: QueryJobs_def)
  have l: "length rows = length ids"
    using list_all2_lengthD [OF rows(2)] by simp
  show ?thesis
    by (intro exI conjI) (rule r l rows(2))+
qed

theorem QueryJobs_rows_follow_sorted_ids_witness:
  "[''2'', ''77'', ''1''] \<noteq> [] \<and> set [''id'', ''status''] \<subseteq> {''id'', ''status'', ''result''}
   \<and> (\<exists>rows. QueryJobs (submit_jobs JobQueue_init [[0::nat], [0]] :: (nat, nat) JobQueue)
                 (Some [''2'', ''77'', ''1'']) [''id'', ''status''] = Inr rows
        \<and> length rows = length [''2'', ''77'', ''1'']
        \<and> list_all2 (row_for (jobs (submit_jobs JobQueue_init [[0::nat], [0]] :: (nat, nat) JobQueue))
              [''id'', ''status'']) (sort [''2'', ''77'', ''1'']) rows)"
proof -
  have h1: "[''2'', ''77'', ''1''] \<noteq> []" by simp
  have h2: "set [''id'', ''status''] \<subseteq> {''id'', ''status'', ''result''}" by simp
  show ?thesis
    using h1 h2 QueryJobs_rows_follow_sorted_ids [OF h1 h2,
        of "submit_jobs JobQueue_init [[0::nat], [0]] :: (nat, nat) JobQueue"]
    by blast
qed

text \<open>
  C7 as stated fails: the ids \<open>''2''\<close> and \<open>''1''\<close>, requested in this order, are
  answered in the order \<open>''1''\<close>, \<open>''2''\<close>.
\<close>

theorem QueryJobs_reorders_requested_ids:
  "QueryJobs (submit_jobs JobQueue_init [[0::nat], [0]] :: (nat, nat) JobQueue)
       (Some [''2'', ''1'']) [''id'']
     = Inr [Some [FieldId ''1''], Some [FieldId ''2'']]"
  by code_simp

section \<open>The vCPU descriptor mapping\<close>

text \<open>
  C9. \<open>to_qmp_vcpu\<close> gives a flat dictionary with exactly the keys \<open>id\<close>, \<open>driver\<close>,
  \<open>socket-id\<close>, \<open>core-id\<close> and \<open>thread-id\<close>, each holding the record's field. For a
  response dictionary with a \<open>type\<close> key and a nested \<open>props\<close> dictionary holding
  \<open>socket-id\<close>, \<open>core-id\<close> and \<open>thread-id\<close>, \<open>from_qmp_vcpu\<close> builds the record with the
  driver from \<open>type\<close>, the three ids from \<open>props\<close>, and \<open>cpu_id\<close> the string \<open>cpu-\<close>
  followed by the socket id of \<open>props\<close>.
\<close>

theorem qmp_vcpu_mapping:
  "map fst (to_qmp_vcpu v) = [''id'', ''driver'', ''socket-id'', ''core-id'', ''thread-id'']
   \<and> map_of (to_qmp_vcpu v) ''id'' = Some (PStr (cpu_id v))
   \<and> map_of (to_qmp_vcpu v) ''driver'' = Some (PStr (driver v))
   \<and> map_of (to_qmp_vcpu v) ''socket-id'' = Some (PInt (socket_id v))
   \<and> map_of (to_qmp_vcpu v) ''core-id'' = Some (PInt (core_id v))
   \<and> map_of (to_qmp_vcpu v) ''thread-id'' = Some (PInt (thread_id v))
   \<and> (map_of vcpu ''type'' = Some (PStr ty) \<and> map_of vcpu ''props'' = Some (PDict props)
        \<and> map_of props ''socket-id'' = Some (PInt s)
        \<and> map_of props ''core-id'' = Some (PInt c)
        \<and> map_of props ''thread-id'' = Some (PInt t)
      \<longrightarrow> from_qmp_vcpu vcpu =
            Inr \<lparr>cpu_id = ''cpu-'' @ str_int s, driver = ty,
                 socket_id = s, core_id = c, thread_id = t\<rparr>)"
  by (simp add: to_qmp_vcpu_def from_qmp_vcpu_def bind_err_def dict_getitem_def)

theorem qmp_vcpu_mapping_witness:
  "from_qmp_vcpu [(''props'', PDict [(''core-id'', PInt 1), (''thread-id'', PInt 0), (''socket-id'', PInt 12)]),
                  (''vcpus-count'', PInt 1), (''type'', PStr ''host-x86_64-cpu'')]
     = Inr \<lparr>cpu_id = ''cpu-12'', driver = ''host-x86_64-cpu'',
            socket_id = 12, core_id = 1, thread_id = 0\<rparr>"
proof -
  have s: "str_int 12 = ''12''"
    by (simp add: str_int_def str_nat.simps digit_char_def)
  show ?thesis
    using qmp_vcpu_mapping [of _
        "[(''props'', PDict [(''core-id'', PInt 1), (''thread-id'', PInt 0), (''socket-id'', PInt 12)]),
          (''vcpus-count'', PInt 1), (''type'', PStr ''host-x86_64-cpu'')]"
        "''host-x86_64-cpu''"
        "[(''core-id'', PInt 1), (''thread-id'', PInt 0), (''socket-id'', PInt 12)]"
        12 1 0]
    by (simp add: s)
qed

text \<open>
  C10. Serializing a vCPU record with \<open>to_dict\<close> and parsing the dictionary back with
  \<open>from_dict\<close> gives the record again.
\<close>

theorem from_dict_to_dict:
  "from_dict (to_dict v) = Inr v"
  by (simp add: from_dict_def to_dict_def field_names_def dict_getitem_def bind_err_def)

end
